theory Spec2Isabelle
  imports Main
begin

section \<open>TrendMiner upload validators\<close>

text \<open>
  A shallow embedding of \<^verbatim>\<open>trendminer/validators.py\<close>. The module is Python 2
  (integer \<^verbatim>\<open>/\<close> is floor division, \<^verbatim>\<open>subproc.stdout.read()\<close> is a byte string).
  Strings are \<^typ>\<open>string\<close>, one \<^typ>\<open>char\<close> per byte.
\<close>

subsection \<open>Python string operations used by the validators\<close>

text \<open>\<^verbatim>\<open>str.lower\<close> on a byte string: the letters A-Z move to a-z, every other byte stays.\<close>

definition lower_char :: "char \<Rightarrow> char" where
  "lower_char c =
     (let n = (of_char c :: nat) in if 65 \<le> n \<and> n \<le> 90 then char_of (n + 32) else c)"

definition lower :: "string \<Rightarrow> string" where
  "lower s = map lower_char s"

text \<open>\<^verbatim>\<open>s.endswith(suffix)\<close>.\<close>

definition endswith :: "string \<Rightarrow> string \<Rightarrow> bool" where
  "endswith s suffix =
     (length suffix \<le> length s \<and> drop (length s - length suffix) s = suffix)"

text \<open>\<^verbatim>\<open>s.startswith(prefix)\<close>, used by the separator search of \<^verbatim>\<open>split\<close>.\<close>

definition startswith :: "string \<Rightarrow> string \<Rightarrow> bool" where
  "startswith s pre = (take (length pre) s = pre)"

text \<open>\<^verbatim>\<open>s.strip()\<close> on a byte string removes leading and trailing whitespace: space, tab,
  newline, vertical tab, form feed, carriage return.\<close>

definition isspace :: "char \<Rightarrow> bool" where
  "isspace c = (let n = (of_char c :: nat) in n = 32 \<or> (9 \<le> n \<and> n \<le> 13))"

definition strip :: "string \<Rightarrow> string" where
  "strip s = rev (dropWhile isspace (rev (dropWhile isspace s)))"

text \<open>\<^verbatim>\<open>s.split(sep)\<close> with a separator: a left-to-right scan for non-overlapping
  occurrences of \<open>sep\<close>; \<open>cur\<close> is the piece collected since the last occurrence.
  Python raises \<^verbatim>\<open>ValueError\<close> on an empty separator; the validators pass the literal
  \<^verbatim>\<open>': '\<close>, and with an empty separator this scan finds no occurrence.\<close>

function split_from :: "string \<Rightarrow> string \<Rightarrow> string \<Rightarrow> string list" where
  "split_from sep cur [] = [cur]"
| "split_from sep cur (c # cs) =
     (if sep \<noteq> [] \<and> startswith (c # cs) sep
      then cur # split_from sep [] (drop (length sep) (c # cs))
      else split_from sep (cur @ [c]) cs)"
  by pat_completeness auto
termination
  by (relation "measure (\<lambda>(sep, cur, s). length s)") auto

definition split :: "string \<Rightarrow> string \<Rightarrow> string list" where
  "split sep s = split_from sep [] s"

text \<open>\<^verbatim>\<open>s.rfind(c)\<close>: the index of the last occurrence of \<open>c\<close>; Python's \<open>-1\<close> is
  \<open>None\<close>.\<close>

fun rfind :: "char \<Rightarrow> string \<Rightarrow> nat option" where
  "rfind c [] = None"
| "rfind c (x # xs) =
     (case rfind c xs of
        Some i \<Rightarrow> Some (Suc i)
      | None \<Rightarrow> if x = c then Some 0 else None)"

text \<open>\<^verbatim>\<open>os.path.splitext\<close> (posixpath): the extension starts at the last dot, provided
  that dot comes after the last slash and some character between the start of the file
  name and the dot is not a dot; otherwise the extension is empty.\<close>

definition splitext :: "string \<Rightarrow> string \<times> string" where
  "splitext p =
     (let filenameIndex = (case rfind CHR ''/'' p of None \<Rightarrow> 0 | Some sepIndex \<Rightarrow> sepIndex + 1)
      in case rfind CHR ''.'' p of
           None \<Rightarrow> (p, [])
         | Some dotIndex \<Rightarrow>
             if filenameIndex \<le> dotIndex \<and>
                list_ex (\<lambda>c. c \<noteq> CHR ''.'')
                  (take (dotIndex - filenameIndex) (drop filenameIndex p))
             then (take dotIndex p, drop dotIndex p)
             else (p, []))"

text \<open>\<^verbatim>\<open>str(n)\<close> and \<^verbatim>\<open>'{}'.format(n)\<close> for an integer: decimal digits, a minus sign first
  when negative.\<close>

definition digit_char :: "nat \<Rightarrow> char" where
  "digit_char d = char_of (48 + d)"

fun str_nat :: "nat \<Rightarrow> string" where
  "str_nat n = (if n < 10 then [digit_char n] else str_nat (n div 10) @ [digit_char (n mod 10)])"

declare str_nat.simps [simp del]

definition str_int :: "int \<Rightarrow> string" where
  "str_int i = (if i < 0 then CHR ''-'' # str_nat (nat (- i)) else str_nat (nat i))"

subsection \<open>Data model\<close>

text \<open>The uploaded file as the validators read it: \<^verbatim>\<open>uploaded_file.name\<close> and
  \<^verbatim>\<open>uploaded_file.size\<close>.\<close>

record uploaded_file =
  name :: string
  size_bytes :: int

text \<open>The names imported from \<^verbatim>\<open>settings\<close> (the module is not among the source files,
  so its values are parameters).\<close>

record settings =
  MAX_UPLOAD_SIZE :: int
  SCHEMA_PATH :: string
  XML_MIME_TYPES :: "string list"
  ZIP_MIME_TYPES :: "string list"

text \<open>What a validator can raise: Django's \<^verbatim>\<open>ValidationError\<close> with its message, an
  \<^verbatim>\<open>IndexError\<close> from indexing a list, a \<^verbatim>\<open>ValueError\<close> from \<^verbatim>\<open>shlex.split\<close>, or
  an exception of the zip library that no handler of the validator catches
  (\<open>OtherException\<close>).\<close>

datatype exn = ValidationError string | IndexError | ValueError | OtherException

text \<open>\<^verbatim>\<open>shlex.split(s)\<close>: the POSIX-mode tokenizer with \<open>whitespace_split\<close> set and no
  comment characters, as the state machine of \<^verbatim>\<open>shlex.read_token\<close> runs it. The states
  are: between tokens (\<open>Blank\<close>), inside a word (\<open>InWord\<close>), inside a quotation opened
  by \<open>q\<close> (\<open>InQuote q\<close>), and after a backslash (\<open>Escaped\<close>, which remembers the quotation
  it is in, if any). \<open>token\<close> is the token collected so far and \<open>quoted\<close> tells whether a
  quotation has been seen in it. Reaching the end of the string inside a quotation or
  after a backslash raises \<^verbatim>\<open>ValueError\<close>.\<close>

definition dquote :: char where
  "dquote = CHR 0x22"

definition squote :: char where
  "squote = CHR 0x27"

definition backslash :: char where
  "backslash = CHR 0x5C"

definition shlex_whitespace :: "char \<Rightarrow> bool" where
  "shlex_whitespace c = (let n = (of_char c :: nat) in n = 32 \<or> n = 9 \<or> n = 13 \<or> n = 10)"

definition shlex_quote :: "char \<Rightarrow> bool" where
  "shlex_quote c = (c = squote \<or> c = dquote)"

datatype lex_state = Blank | InWord | InQuote char | Escaped "char option"

text \<open>A finished token is returned when it is not empty or was quoted.\<close>

definition emit :: "string \<Rightarrow> bool \<Rightarrow> exn + string list \<Rightarrow> exn + string list" where
  "emit token quoted rest =
     (case rest of
        Inl e \<Rightarrow> Inl e
      | Inr tokens \<Rightarrow> Inr (if token \<noteq> [] \<or> quoted then token # tokens else tokens))"

fun read_tokens :: "lex_state \<Rightarrow> string \<Rightarrow> bool \<Rightarrow> string \<Rightarrow> exn + string list" where
  "read_tokens Blank token quoted [] = emit token quoted (Inr [])"
| "read_tokens InWord token quoted [] = emit token quoted (Inr [])"
| "read_tokens (InQuote q) token quoted [] = Inl ValueError"
| "read_tokens (Escaped es) token quoted [] = Inl ValueError"
| "read_tokens Blank token quoted (c # cs) =
     (if shlex_whitespace c then emit token quoted (read_tokens Blank [] False cs)
      else if c = backslash then read_tokens (Escaped None) token quoted cs
      else if shlex_quote c then read_tokens (InQuote c) token quoted cs
      else read_tokens InWord [c] quoted cs)"
| "read_tokens (InQuote q) token quoted (c # cs) =
     (if c = q then read_tokens InWord token True cs
      else if c = backslash \<and> q = dquote then read_tokens (Escaped (Some q)) token True cs
      else read_tokens (InQuote q) (token @ [c]) True cs)"
| "read_tokens (Escaped es) token quoted (c # cs) =
     (case es of
        None \<Rightarrow> read_tokens InWord (token @ [c]) quoted cs
      | Some q \<Rightarrow>
          read_tokens (InQuote q)
            ((if c \<noteq> backslash \<and> c \<noteq> q then token @ [backslash] else token) @ [c])
            quoted cs)"
| "read_tokens InWord token quoted (c # cs) =
     (if shlex_whitespace c then emit token quoted (read_tokens Blank [] False cs)
      else if shlex_quote c then read_tokens (InQuote c) token quoted cs
      else if c = backslash then read_tokens (Escaped None) token quoted cs
      else read_tokens InWord (token @ [c]) quoted cs)"

definition shlex_split :: "string \<Rightarrow> exn + string list" where
  "shlex_split s = read_tokens Blank [] False s"

text \<open>The command lines the validators build: \<^verbatim>\<open>'xmlwf "{}"'.format(path)\<close> and
  \<^verbatim>\<open>'xmllint --noout --schema "{0}" "{1}"'.format(schema, path)\<close>.\<close>

definition xmlwf_command :: "string \<Rightarrow> string" where
  "xmlwf_command path = ''xmlwf '' @ [dquote] @ path @ [dquote]"

definition xmllint_command :: "string \<Rightarrow> string \<Rightarrow> string" where
  "xmllint_command schema path =
     ''xmllint --noout --schema '' @ [dquote] @ schema @ [dquote] @ '' '' @
     [dquote] @ path @ [dquote]"

text \<open>\<^verbatim>\<open>xs[-1]\<close>.\<close>

definition subscript_last :: "'a list \<Rightarrow> exn + 'a" where
  "subscript_last xs = (case xs of [] \<Rightarrow> Inl IndexError | _ \<Rightarrow> Inr (last xs))"

text \<open>Truth value of a string-or-\<^verbatim>\<open>None\<close>, as \<^verbatim>\<open>if corrupted_file:\<close> and
  \<^verbatim>\<open>if folder_name:\<close> test it: \<^verbatim>\<open>None\<close> and the empty string are false.\<close>

definition truthy :: "string option \<Rightarrow> bool" where
  "truthy v = (case v of None \<Rightarrow> False | Some s \<Rightarrow> s \<noteq> [])"

text \<open>
  The outside world, as the validators consult it. A path \<^verbatim>\<open>get_tmp_path(a, b)\<close> that
  is handed to a library call is identified by its components \<open>[a, b]\<close>; where the path
  is written into a command line, the string that the helper returns is used.
  \<^item> \<open>file_mime_type\<close>: standard output of \<^verbatim>\<open>file --mime-type <path>\<close>;
  \<^item> \<open>ZipFile\<close>: the constructor \<^verbatim>\<open>ZipFile(path)\<close>, which returns an archive or raises;
  \<^item> \<open>testzip\<close>, \<open>namelist\<close>: the archive's methods; \<^verbatim>\<open>testzip()\<close> returns the name of
    the first bad member or \<^verbatim>\<open>None\<close>, or raises;
  \<^item> \<open>extract_archive\<close>: the helper of \<^verbatim>\<open>utils\<close> (not among the source files), which
    returns a folder name or a false value;
  \<^item> \<open>listdir\<close>: the names in the extracted folder (\<^verbatim>\<open>os.listdir\<close>: the entries of that
    one directory);
  \<^item> \<open>get_tmp_path\<close>: the helper of \<^verbatim>\<open>utils\<close> (not among the source files) that turns
    path components into a path string;
  \<^item> \<open>Popen_stdout\<close>: what the process started with this argument list writes to its
    standard output (\<^verbatim>\<open>subprocess.Popen(command, stdout=PIPE).stdout.read()\<close>);
  \<^item> \<open>Popen_wait\<close>: the exit status of the process started with this argument list
    (\<^verbatim>\<open>subprocess.Popen(command).wait()\<close>).
  The zip library raises \<^verbatim>\<open>IOError\<close> and \<^verbatim>\<open>BadZipFile\<close>, which the validators name in
  their handlers, and exceptions of other classes (\<^verbatim>\<open>zlib.error\<close> on corrupted deflate
  data, \<^verbatim>\<open>RuntimeError\<close> on an encrypted member, \<^verbatim>\<open>NotImplementedError\<close>), which no
  handler names: \<open>OtherError\<close>.
  The decorator \<^verbatim>\<open>file_on_disk\<close> only makes the upload available at its path and is
  not modelled. The tools \<^verbatim>\<open>file\<close>, \<^verbatim>\<open>xmlwf\<close> and \<^verbatim>\<open>xmllint\<close> are taken to be
  installed, and the folder that \<open>extract_archive\<close> names to exist.
\<close>

datatype zip_error = IOError | BadZipFile | OtherError

record archive =
  testzip :: "zip_error + string option"
  namelist :: "string list"

type_synonym tmp_path = "string list"

record env =
  file_mime_type :: "tmp_path \<Rightarrow> string"
  ZipFile :: "tmp_path \<Rightarrow> zip_error + archive"
  extract_archive :: "tmp_path \<Rightarrow> string option"
  listdir :: "tmp_path \<Rightarrow> string list"
  get_tmp_path :: "tmp_path \<Rightarrow> string"
  Popen_stdout :: "string list \<Rightarrow> string"
  Popen_wait :: "string list \<Rightarrow> int"

subsection \<open>Extension and size\<close>

definition validate_extension :: "uploaded_file \<Rightarrow> exn + unit" where
  "validate_extension uploaded_file =
     (if \<not> (endswith (lower (name uploaded_file)) ''zip'' \<or>
             endswith (lower (name uploaded_file)) ''xml'')
      then Inl (ValidationError ''Upload must be in .zip or .xml format.'')
      else Inr ())"

definition validate_size :: "settings \<Rightarrow> uploaded_file \<Rightarrow> exn + unit" where
  "validate_size cfg uploaded_file =
     (if size_bytes uploaded_file > MAX_UPLOAD_SIZE cfg
      then Inl (ValidationError
             (''Upload too large. The current limit is '' @
              str_int (MAX_UPLOAD_SIZE cfg div (1024 ^ 2)) @ ''MB.''))
      else Inr ())"

subsection \<open>MIME type\<close>

text \<open>\<^verbatim>\<open>subproc.stdout.read().strip().split(': ')[-1]\<close>.\<close>

definition sniffed_mime_type :: "string \<Rightarrow> exn + string" where
  "sniffed_mime_type out = subscript_last (split '': '' (strip out))"

definition validate_mime_type :: "settings \<Rightarrow> env \<Rightarrow> uploaded_file \<Rightarrow> exn + unit" where
  "validate_mime_type cfg env uploaded_file =
     (case sniffed_mime_type (file_mime_type env [name uploaded_file]) of
        Inl e \<Rightarrow> Inl e
      | Inr mime_type \<Rightarrow>
          (let file_extension = snd (splitext (name uploaded_file))
           in if file_extension = ''.zip'' \<and> mime_type \<notin> set (ZIP_MIME_TYPES cfg)
              then Inl (ValidationError
                     (''File appears to be in .zip format, but it is not (MIME-type: '' @
                      mime_type @ '').''))
              else if file_extension = ''.xml'' \<and> mime_type \<notin> set (XML_MIME_TYPES cfg)
              then Inl (ValidationError
                     (''File appears to be in .xml format, but it is not (MIME-type: '' @
                      mime_type @ '').''))
              else Inr ()))"

subsection \<open>Zip integrity and contents\<close>

text \<open>The \<^verbatim>\<open>try\<close> block of \<open>validate_zip_integrity\<close> holds both the constructor call and
  \<^verbatim>\<open>testzip()\<close>; \<^verbatim>\<open>IOError\<close> from either becomes the rejection, \<^verbatim>\<open>BadZipFile\<close> from
  either leaves \<open>corrupted_file\<close> at \<^verbatim>\<open>None\<close>, and an exception of another class
  from either leaves the validator uncaught.\<close>

definition validate_zip_integrity :: "env \<Rightarrow> uploaded_file \<Rightarrow> exn + unit" where
  "validate_zip_integrity env uploaded_file =
     (if endswith (name uploaded_file) ''zip''
      then (case (case ZipFile env [name uploaded_file] of
                    Inl e \<Rightarrow> Inl e
                  | Inr archive \<Rightarrow> testzip archive) of
              Inl IOError \<Rightarrow> Inl (ValidationError ''Archive is corrupted'')
            | Inl BadZipFile \<Rightarrow> Inr ()
            | Inl OtherError \<Rightarrow> Inl OtherException
            | Inr corrupted_file \<Rightarrow>
                if truthy corrupted_file
                then Inl (ValidationError ''Archive contains corrupted files'')
                else Inr ())
      else Inr ())"

definition validate_zip_contents :: "env \<Rightarrow> uploaded_file \<Rightarrow> exn + unit" where
  "validate_zip_contents env uploaded_file =
     (if endswith (name uploaded_file) ''zip''
      then (case (case ZipFile env [name uploaded_file] of
                    Inl IOError \<Rightarrow> Inr []
                  | Inl BadZipFile \<Rightarrow> Inr []
                  | Inl OtherError \<Rightarrow> Inl OtherException
                  | Inr archive \<Rightarrow> Inr (namelist archive)) of
              Inl e \<Rightarrow> Inl e
            | Inr contents \<Rightarrow>
                if list_ex (\<lambda>item. \<not> endswith item ''xml'') contents
                then Inl (ValidationError ''Archive contains files that are not in XML format'')
                else Inr ())
      else Inr ())"

subsection \<open>Well-formedness and schema conformity\<close>

text \<open>The loops over \<^verbatim>\<open>listdir(get_tmp_path(folder_name))\<close>: for each file to check, the
  command line is built and split by \<^verbatim>\<open>shlex.split\<close> (which may raise), the process is
  run on the resulting argument list, and the first file that fails raises; any raise
  ends the loop.\<close>

fun files_well_formed :: "env \<Rightarrow> string \<Rightarrow> string list \<Rightarrow> exn + unit" where
  "files_well_formed env folder_name [] = Inr ()"
| "files_well_formed env folder_name (file_name # rest) =
     (if endswith file_name ''.xml'' \<and> \<not> file_name = ''om.xml''
      then (case shlex_split (xmlwf_command (get_tmp_path env [folder_name, file_name])) of
              Inl e \<Rightarrow> Inl e
            | Inr command \<Rightarrow>
                (let error_msg = Popen_stdout env command
                 in if error_msg \<noteq> []
                    then Inl (ValidationError
                           ''Archive contains XML files that are not well-formed'')
                    else files_well_formed env folder_name rest))
      else files_well_formed env folder_name rest)"

definition validate_xml_well_formedness :: "env \<Rightarrow> uploaded_file \<Rightarrow> exn + unit" where
  "validate_xml_well_formedness env uploaded_file =
     (let file_type = snd (splitext (name uploaded_file))
      in if file_type = ''.zip''
         then (let folder_name = extract_archive env [name uploaded_file]
               in case folder_name of
                    None \<Rightarrow> Inr ()
                  | Some folder \<Rightarrow>
                      if truthy folder_name
                      then files_well_formed env folder (listdir env [folder])
                      else Inr ())
         else if file_type = ''.xml''
         then (case shlex_split (xmlwf_command (get_tmp_path env [name uploaded_file])) of
                 Inl e \<Rightarrow> Inl e
               | Inr command \<Rightarrow>
                   (let error_msg = Popen_stdout env command
                    in if error_msg \<noteq> []
                       then Inl (ValidationError ''XML file is not well-formed'')
                       else Inr ()))
         else Inr ())"

fun files_against_schema :: "settings \<Rightarrow> env \<Rightarrow> string \<Rightarrow> string list \<Rightarrow> exn + unit" where
  "files_against_schema cfg env folder_name [] = Inr ()"
| "files_against_schema cfg env folder_name (file_name # rest) =
     (if endswith file_name ''.xml'' \<and> \<not> file_name = ''om.xml''
      then (case shlex_split
                    (xmllint_command (SCHEMA_PATH cfg)
                       (get_tmp_path env [folder_name, file_name])) of
              Inl e \<Rightarrow> Inl e
            | Inr command \<Rightarrow>
                (let returncode = Popen_wait env command
                 in if \<not> returncode = 0
                    then Inl (ValidationError
                           (''Archive contains XML files that do not '' @
                            ''validate against the TrendMiner XML schema''))
                    else files_against_schema cfg env folder_name rest))
      else files_against_schema cfg env folder_name rest)"

definition validate_against_schema :: "settings \<Rightarrow> env \<Rightarrow> uploaded_file \<Rightarrow> exn + unit" where
  "validate_against_schema cfg env uploaded_file =
     (let file_type = snd (splitext (name uploaded_file))
      in if file_type = ''.zip''
         then (let folder_name = extract_archive env [name uploaded_file]
               in case folder_name of
                    None \<Rightarrow> Inr ()
                  | Some folder \<Rightarrow>
                      if truthy folder_name
                      then files_against_schema cfg env folder (listdir env [folder])
                      else Inr ())
         else if file_type = ''.xml''
         then (case shlex_split
                       (xmllint_command (SCHEMA_PATH cfg)
                          (get_tmp_path env [name uploaded_file])) of
                 Inl e \<Rightarrow> Inl e
               | Inr command \<Rightarrow>
                   if \<not> Popen_wait env command = 0
                   then Inl (ValidationError
                          ''XML file does not validate against TrendMiner XML Schema'')
                   else Inr ())
         else Inr ())"

subsection \<open>The pipeline\<close>

text \<open>Modelled from the spec: the verdict of a validation run (the form that calls the
  validators is not among the source files). The spec: a verdict is either \<open>Accepted\<close>
  or \<open>Rejected\<close> with the one error of the first failing stage.\<close>

datatype verdict = Accepted | Rejected exn

text \<open>Modelled from the spec: the runner of the stages. The spec: each stage either passes
  (continue) or produces exactly one \<open>ValidationError\<close> (halt, report); if every stage
  passes, the verdict is \<open>Accepted\<close>.\<close>

fun run_stages :: "(exn + unit) list \<Rightarrow> verdict" where
  "run_stages [] = Accepted"
| "run_stages (Inl e # rest) = Rejected e"
| "run_stages (Inr u # rest) = run_stages rest"

text \<open>Modelled from the spec: the order of the stages. The spec: stages run strictly in
  the order extension, size, MIME type, zip integrity, zip contents, well-formedness,
  schema conformity. Each stage is the validator of the source.\<close>

definition stages :: "settings \<Rightarrow> env \<Rightarrow> uploaded_file \<Rightarrow> (exn + unit) list" where
  "stages cfg env uploaded_file =
     [validate_extension uploaded_file,
      validate_size cfg uploaded_file,
      validate_mime_type cfg env uploaded_file,
      validate_zip_integrity env uploaded_file,
      validate_zip_contents env uploaded_file,
      validate_xml_well_formedness env uploaded_file,
      validate_against_schema cfg env uploaded_file]"

text \<open>Modelled from the spec: the single entry point \<open>validate(candidate) -> Verdict\<close>.\<close>

definition validate :: "settings \<Rightarrow> env \<Rightarrow> uploaded_file \<Rightarrow> verdict" where
  "validate cfg env uploaded_file = run_stages (stages cfg env uploaded_file)"

subsection \<open>Example settings and worlds\<close>

text \<open>Concrete inputs on which the theorems below are instantiated. Temporary paths are
  the components joined under \<open>/tmp\<close>. In \<open>silent_world\<close> every process prints nothing
  and exits with 0, no archive opens and none extracts.\<close>

definition example_tmp_path :: "tmp_path \<Rightarrow> string" where
  "example_tmp_path parts = concat (map (\<lambda>part. CHR ''/'' # part) (''tmp'' # parts))"

definition example_settings :: settings where
  "example_settings =
     \<lparr>MAX_UPLOAD_SIZE = 5242880, SCHEMA_PATH = ''schema.xsd'',
      XML_MIME_TYPES = [''application/xml'', ''text/plain''],
      ZIP_MIME_TYPES = [''application/zip'']\<rparr>"

definition silent_world :: env where
  "silent_world =
     \<lparr>file_mime_type = (\<lambda>p. []), ZipFile = (\<lambda>p. Inl BadZipFile),
      extract_archive = (\<lambda>p. None), listdir = (\<lambda>p. []),
      get_tmp_path = example_tmp_path, Popen_stdout = (\<lambda>command. []),
      Popen_wait = (\<lambda>command. 0)\<rparr>"

text \<open>An archive that opens and lists one entry, \<open>notesxml\<close>; an archive that opens
  and whose integrity test raises \<^verbatim>\<open>IOError\<close>; an archive whose integrity test names the
  member \<open>bad.xml\<close>; and a world in which every check that runs finds a fault.\<close>

definition dotless_entry_world :: env where
  "dotless_entry_world =
     silent_world\<lparr>ZipFile := (\<lambda>p. Inr \<lparr>testzip = Inr None, namelist = [''notesxml'']\<rparr>)\<rparr>"

definition testzip_io_error_world :: env where
  "testzip_io_error_world =
     silent_world\<lparr>ZipFile := (\<lambda>p. Inr \<lparr>testzip = Inl IOError, namelist = []\<rparr>)\<rparr>"

definition corrupted_member_world :: env where
  "corrupted_member_world =
     silent_world\<lparr>ZipFile := (\<lambda>p. Inr \<lparr>testzip = Inr (Some ''bad.xml''), namelist = [''bad.xml'']\<rparr>)\<rparr>"

definition failing_world :: env where
  "failing_world =
     \<lparr>file_mime_type = (\<lambda>p. ''upload: image/png''), ZipFile = (\<lambda>p. Inl IOError),
      extract_archive = (\<lambda>p. Some ''folder''), listdir = (\<lambda>p. [''a.xml'', ''om.xml'']),
      get_tmp_path = example_tmp_path, Popen_stdout = (\<lambda>command. ''not well-formed''),
      Popen_wait = (\<lambda>command. 1)\<rparr>"

text \<open>An \<open>.xml\<close> upload one byte over the example limit; worlds in which the sniffer
  reports \<open>application/zip\<close> and \<open>application/octet-stream\<close>; and a world whose
  extracted folder holds \<open>a.xml\<close>, which is in order, and \<open>om.xml\<close>, on which both
  tools report a fault.\<close>

definition oversized_xml :: uploaded_file where
  "oversized_xml = \<lparr>name = ''a.xml'', size_bytes = 5242881\<rparr>"

definition zip_sniffed_world :: env where
  "zip_sniffed_world = silent_world\<lparr>file_mime_type := (\<lambda>p. ''/tmp/a.zip: application/zip'')\<rparr>"

definition octet_stream_world :: env where
  "octet_stream_world =
     silent_world\<lparr>file_mime_type := (\<lambda>p. ''/tmp/a.zip: application/octet-stream'')\<rparr>"

definition faulty_om_world :: env where
  "faulty_om_world =
     \<lparr>file_mime_type = (\<lambda>p. ''/tmp/a.zip: application/zip''),
      ZipFile = (\<lambda>p. Inr \<lparr>testzip = Inr None, namelist = [''a.xml'', ''om.xml'']\<rparr>),
      extract_archive = (\<lambda>p. Some ''folder''),
      listdir = (\<lambda>p. [''a.xml'', ''om.xml'']),
      get_tmp_path = example_tmp_path,
      Popen_stdout =
        (\<lambda>command. if command = [''xmlwf'', ''/tmp/folder/om.xml'']
                   then ''not well-formed'' else []),
      Popen_wait =
        (\<lambda>command. if command =
                        [''xmllint'', ''--noout'', ''--schema'', ''schema.xsd'',
                         ''/tmp/folder/om.xml'']
                   then 1 else 0)\<rparr>"

text \<open>An archive whose integrity test raises an exception that the validator does not
  catch; an extracted folder that holds one file whose name contains a double quote
  (\<open>a\<close>, a double quote, \<open>.xml\<close>); and an archive whose only member \<open>sub/bad.xml\<close> is extracted into the
  directory \<open>sub\<close>, in a world whose tools find a fault in every file they are given.\<close>

definition uncaught_error_world :: env where
  "uncaught_error_world =
     silent_world\<lparr>ZipFile := (\<lambda>p. Inr \<lparr>testzip = Inl OtherError, namelist = [''a.xml'']\<rparr>)\<rparr>"

definition quoted_member_name :: string where
  "quoted_member_name = ''a'' @ [dquote] @ ''.xml''"

definition quoted_member_world :: env where
  "quoted_member_world =
     \<lparr>file_mime_type = (\<lambda>p. ''/tmp/a.zip: application/zip''),
      ZipFile = (\<lambda>p. Inr \<lparr>testzip = Inr None, namelist = [quoted_member_name]\<rparr>),
      extract_archive = (\<lambda>p. Some ''folder''),
      listdir = (\<lambda>p. [quoted_member_name]),
      get_tmp_path = example_tmp_path, Popen_stdout = (\<lambda>command. ''not well-formed''),
      Popen_wait = (\<lambda>command. 1)\<rparr>"

definition nested_member_world :: env where
  "nested_member_world =
     \<lparr>file_mime_type = (\<lambda>p. ''/tmp/a.zip: application/zip''),
      ZipFile = (\<lambda>p. Inr \<lparr>testzip = Inr None, namelist = [''sub/bad.xml'']\<rparr>),
      extract_archive = (\<lambda>p. Some ''folder''),
      listdir = (\<lambda>p. if p = [''folder''] then [''sub''] else [''bad.xml'']),
      get_tmp_path = example_tmp_path, Popen_stdout = (\<lambda>command. ''not well-formed''),
      Popen_wait = (\<lambda>command. 1)\<rparr>"

section \<open>Properties\<close>

lemma str_nat_example: "str_nat 1048576 = ''1048576''"
  by (simp add: str_nat.simps digit_char_def char_of_eq_iff)

lemma lower_example: "lower ''DATA.Zip'' = ''data.zip''"
  by (simp add: lower_def lower_char_def char_of_eq_iff)

lemma split_example: "split '': '' ''/tmp/a.zip: application/zip'' = [''/tmp/a.zip'', ''application/zip'']"
  by (simp add: split_def startswith_def)

lemma splitext_example: "splitext ''a.b/.zip'' = (''a.b/.zip'', []) \<and> splitext ''x.tar.zip'' = (''x.tar'', ''.zip'')"
  by (simp add: splitext_def)

lemma strip_example: "strip '' a b  '' = ''a b''"
  by (simp add: strip_def isspace_def)

subsection \<open>Facts about the string operations\<close>

lemma endswith_iff: "endswith s suf \<longleftrightarrow> (\<exists>pre. s = pre @ suf)"
proof
  assume "endswith s suf"
  then have "s = take (length s - length suf) s @ suf"
    by (metis append_take_drop_id endswith_def)
  then show "\<exists>pre. s = pre @ suf" ..
next
  assume "\<exists>pre. s = pre @ suf"
  then show "endswith s suf" by (auto simp: endswith_def)
qed

lemma lower_append: "lower (a @ b) = lower a @ lower b"
  by (simp add: lower_def)

lemma length_lower: "length (lower s) = length s"
  by (simp add: lower_def)

lemma lower_char_dot: "lower_char c = CHR ''.'' \<Longrightarrow> c = CHR ''.''"
  by (auto simp: lower_char_def Let_def char_of_eq_iff take_bit_eq_mod split: if_splits)

lemma lower_suffixes:
  "lower ''.zip'' = ''.zip''" "lower ''zip'' = ''zip''"
  "lower ''.xml'' = ''.xml''" "lower ''xml'' = ''xml''"
  by (simp_all add: lower_def lower_char_def)

lemma endswith_tl: "endswith s (c # t) \<Longrightarrow> endswith s t"
  by (metis append.assoc append_Cons append_Nil endswith_iff)

lemma endswith_lower: "endswith s suf \<Longrightarrow> endswith (lower s) (lower suf)"
  by (auto simp: endswith_iff lower_append)

lemma endswith_same_length:
  "endswith s a \<Longrightarrow> endswith s b \<Longrightarrow> length a = length b \<Longrightarrow> a = b"
  by (auto simp: endswith_iff)

text \<open>Lowering never produces a dot from another character, so a name whose lowered form
  ends in \<open>.t\<close> and which itself ends in \<open>t\<close> ends in \<open>.t\<close>.\<close>

lemma endswith_lower_dot:
  assumes low: "endswith (lower n) (CHR ''.'' # t)" and suf: "endswith n t"
  shows "endswith n (CHR ''.'' # t)"
proof -
  from suf obtain pre where n: "n = pre @ t" by (auto simp: endswith_iff)
  from low obtain q where q: "lower n = q @ CHR ''.'' # t" by (auto simp: endswith_iff)
  have "lower pre @ lower t = (q @ [CHR ''.'']) @ t"
    using q by (simp add: n lower_append)
  moreover have "length (lower t) = length t" by (rule length_lower)
  ultimately have lp: "lower pre = q @ [CHR ''.'']"
    using append_eq_append_conv [of "lower pre" "q @ [CHR ''.'']" "lower t" t] by blast
  then have "pre \<noteq> []" by (auto simp: lower_def)
  then obtain b x where pre: "pre = b @ [x]" by (metis rev_exhaust)
  with lp have "lower_char x = CHR ''.''" by (simp add: lower_def)
  then have "x = CHR ''.''" by (rule lower_char_dot)
  with pre n show ?thesis by (auto simp: endswith_iff)
qed

text \<open>The extension that \<open>splitext\<close> returns is empty or a suffix of the path.\<close>

lemma splitext_snd: "snd (splitext p) = [] \<or> endswith p (snd (splitext p))"
  by (auto simp: splitext_def Let_def endswith_iff split: option.splits)
     (metis append_take_drop_id)+

lemma splitext_append: "fst (splitext p) @ snd (splitext p) = p"
  by (auto simp: splitext_def Let_def split: option.splits)

text \<open>\<open>split\<close> never returns the empty list, so \<^verbatim>\<open>[-1]\<close> finds an element.\<close>

lemma split_from_not_Nil: "split_from sep cur s \<noteq> []"
  by (induction sep cur s rule: split_from.induct) auto

lemma split_from_no_sep: "CHR '':'' \<notin> set s \<Longrightarrow> split_from '': '' cur s = [cur @ s]"
  by (induction s arbitrary: cur) (auto simp: startswith_def)

lemma sniffed_mime_type_last:
  "sniffed_mime_type out = Inr (last (split '': '' (strip out)))"
  using split_from_not_Nil [of "'': ''" "[]" "strip out"]
  by (simp add: sniffed_mime_type_def subscript_last_def split_def split: list.splits)

subsection \<open>Command lines\<close>

text \<open>Inside a double quotation only the double quote and the backslash are special.
  A path without them comes out of \<open>shlex_split\<close> as the one argument it went in as.\<close>

lemma in_dquote_plain:
  "dquote \<notin> set p \<Longrightarrow> backslash \<notin> set p \<Longrightarrow>
   read_tokens (InQuote dquote) token quoted (p @ dquote # rest) =
     read_tokens InWord (token @ p) True rest"
  by (induction p arbitrary: token quoted) auto

lemma shlex_split_xmlwf_command:
  assumes "dquote \<notin> set path" and "backslash \<notin> set path"
  shows "shlex_split (xmlwf_command path) = Inr [''xmlwf'', path]"
proof -
  have "shlex_split (xmlwf_command path) =
          emit ''xmlwf'' False (read_tokens (InQuote dquote) [] False (path @ dquote # []))"
    by (simp add: shlex_split_def xmlwf_command_def shlex_whitespace_def shlex_quote_def
          dquote_def squote_def backslash_def)
  also have "\<dots> = emit ''xmlwf'' False (read_tokens InWord path True [])"
    using assms by (simp add: in_dquote_plain)
  finally show ?thesis by (simp add: emit_def)
qed

lemma shlex_split_xmllint_command:
  assumes "dquote \<notin> set schema" and "backslash \<notin> set schema"
      and "dquote \<notin> set path" and "backslash \<notin> set path"
  shows "shlex_split (xmllint_command schema path) =
           Inr [''xmllint'', ''--noout'', ''--schema'', schema, path]"
proof -
  have "shlex_split (xmllint_command schema path) =
          emit ''xmllint'' False (emit ''--noout'' False (emit ''--schema'' False
            (read_tokens (InQuote dquote) [] False
               (schema @ dquote # CHR '' '' # dquote # path @ [dquote]))))"
    by (simp add: shlex_split_def xmllint_command_def shlex_whitespace_def shlex_quote_def
          dquote_def squote_def backslash_def)
  also have "read_tokens (InQuote dquote) [] False
               (schema @ dquote # CHR '' '' # dquote # path @ [dquote]) =
             read_tokens InWord schema True (CHR '' '' # dquote # path @ [dquote])"
    using assms(1,2) by (simp add: in_dquote_plain)
  also have "\<dots> = emit schema True (read_tokens (InQuote dquote) [] False (path @ dquote # []))"
    by (simp add: shlex_whitespace_def shlex_quote_def dquote_def squote_def backslash_def)
  also have "read_tokens (InQuote dquote) [] False (path @ dquote # []) =
             read_tokens InWord path True []"
    using assms(3,4) by (simp add: in_dquote_plain)
  finally show ?thesis by (simp add: emit_def)
qed

text \<open>A path that holds one double quote and no backslash or other quote does not: the
  quotation that the command line opens is closed early and the closing quote of the
  command line opens one that never ends.\<close>

lemma shlex_split_quoted_member:
  "shlex_split (xmlwf_command (example_tmp_path [''folder'', quoted_member_name])) =
     Inl ValueError"
  "shlex_split (xmllint_command ''schema.xsd''
     (example_tmp_path [''folder'', quoted_member_name])) = Inl ValueError"
  by (simp_all add: shlex_split_def xmlwf_command_def xmllint_command_def example_tmp_path_def
        quoted_member_name_def emit_def shlex_whitespace_def shlex_quote_def dquote_def
        squote_def backslash_def)

subsection \<open>The loops over the extracted files\<close>

text \<open>When the paths of the listed files (and the schema path) hold no double quote and
  no backslash, a loop rejects exactly when the tool finds a fault in some listed file
  whose name ends in \<open>.xml\<close> and is not \<open>om.xml\<close>.\<close>

lemma files_well_formed_plain:
  assumes "\<forall>file_name \<in> set names.
             dquote \<notin> set (get_tmp_path env [folder, file_name]) \<and>
             backslash \<notin> set (get_tmp_path env [folder, file_name])"
  shows "files_well_formed env folder names =
     (if list_ex (\<lambda>file_name. endswith file_name ''.xml'' \<and> file_name \<noteq> ''om.xml'' \<and>
            Popen_stdout env [''xmlwf'', get_tmp_path env [folder, file_name]] \<noteq> []) names
      then Inl (ValidationError ''Archive contains XML files that are not well-formed'')
      else Inr ())"
  using assms by (induction names) (auto simp: Let_def shlex_split_xmlwf_command)

lemma files_against_schema_plain:
  assumes "dquote \<notin> set (SCHEMA_PATH cfg)" and "backslash \<notin> set (SCHEMA_PATH cfg)"
      and "\<forall>file_name \<in> set names.
             dquote \<notin> set (get_tmp_path env [folder, file_name]) \<and>
             backslash \<notin> set (get_tmp_path env [folder, file_name])"
  shows "files_against_schema cfg env folder names =
     (if list_ex (\<lambda>file_name. endswith file_name ''.xml'' \<and> file_name \<noteq> ''om.xml'' \<and>
            Popen_wait env [''xmllint'', ''--noout'', ''--schema'', SCHEMA_PATH cfg,
                            get_tmp_path env [folder, file_name]] \<noteq> 0) names
      then Inl (ValidationError
             ''Archive contains XML files that do not validate against the TrendMiner XML schema'')
      else Inr ())"
  using assms by (induction names) (auto simp: Let_def shlex_split_xmllint_command)

subsection \<open>Extension\<close>

text \<open>A name that ends in \<open>.zip\<close> or \<open>.xml\<close>, in any letter case, passes the extension
  check.\<close>

lemma validate_extension_passes:
  "endswith (lower (name f)) ''.zip'' \<or> endswith (lower (name f)) ''.xml'' \<Longrightarrow>
   validate_extension f = Inr ()"
  by (auto simp: validate_extension_def dest: endswith_tl)

text \<open>C1. The claim: every name that does not end, case-insensitively, in \<open>.zip\<close> or
  \<open>.xml\<close> is rejected with the extension error. The validator tests the suffixes
  \<open>zip\<close> and \<open>xml\<close> without the dot: the name \<open>datazip\<close> ends in neither \<open>.zip\<close>
  nor \<open>.xml\<close>, and it passes.\<close>

theorem validate_extension_dotless_name:
  "validate_extension \<lparr>name = ''datazip'', size_bytes = 0\<rparr> = Inr () \<and>
   \<not> endswith (lower ''datazip'') ''.zip'' \<and> \<not> endswith (lower ''datazip'') ''.xml''"
  by (simp add: validate_extension_def endswith_def lower_def lower_char_def char_of_eq_iff)

subsection \<open>Size\<close>

text \<open>C9. An upload whose size exceeds \<open>MAX_UPLOAD_SIZE\<close> is rejected with the size
  message, which carries \<open>MAX_UPLOAD_SIZE\<close> divided by \<open>1024\<^sup>2\<close> (rounded down) in
  decimal; an upload of exactly \<open>MAX_UPLOAD_SIZE\<close> bytes passes. The validator reads
  nothing but the size, so the file's content plays no part.\<close>

theorem validate_size_limit:
  "(MAX_UPLOAD_SIZE cfg < size_bytes f \<longrightarrow>
      validate_size cfg f =
        Inl (ValidationError (''Upload too large. The current limit is '' @
               str_int (MAX_UPLOAD_SIZE cfg div 1024 ^ 2) @ ''MB.''))) \<and>
   (size_bytes f = MAX_UPLOAD_SIZE cfg \<longrightarrow> validate_size cfg f = Inr ()) \<and>
   (MAX_UPLOAD_SIZE cfg div 1024 ^ 2) * 1024 ^ 2 \<le> MAX_UPLOAD_SIZE cfg \<and>
   MAX_UPLOAD_SIZE cfg < (MAX_UPLOAD_SIZE cfg div 1024 ^ 2 + 1) * 1024 ^ 2"
proof -
  have "(MAX_UPLOAD_SIZE cfg div 1024 ^ 2) * 1024 ^ 2 \<le> MAX_UPLOAD_SIZE cfg"
    by simp
  moreover have "MAX_UPLOAD_SIZE cfg < (MAX_UPLOAD_SIZE cfg div 1024 ^ 2 + 1) * 1024 ^ 2"
    by simp
  ultimately show ?thesis by (simp add: validate_size_def)
qed

theorem validate_size_limit_witness:
  "MAX_UPLOAD_SIZE example_settings < size_bytes \<lparr>name = ''a.zip'', size_bytes = 5242881\<rparr> \<and>
   validate_size example_settings \<lparr>name = ''a.zip'', size_bytes = 5242881\<rparr> =
     Inl (ValidationError ''Upload too large. The current limit is 5MB.'') \<and>
   size_bytes \<lparr>name = ''a.zip'', size_bytes = 5242880\<rparr> = MAX_UPLOAD_SIZE example_settings \<and>
   validate_size example_settings \<lparr>name = ''a.zip'', size_bytes = 5242880\<rparr> = Inr ()"
  using validate_size_limit [of example_settings "\<lparr>name = ''a.zip'', size_bytes = 5242881\<rparr>"]
    validate_size_limit [of example_settings "\<lparr>name = ''a.zip'', size_bytes = 5242880\<rparr>"]
  by (simp add: example_settings_def str_int_def str_nat.simps digit_char_def char_of_eq_iff)

subsection \<open>Zip contents\<close>

text \<open>An archive whose entries all end in \<open>.xml\<close> passes the contents check.\<close>

lemma validate_zip_contents_passes:
  "ZipFile env [name f] = Inr a \<Longrightarrow> list_all (\<lambda>item. endswith item ''.xml'') (namelist a) \<Longrightarrow>
   validate_zip_contents env f = Inr ()"
  by (auto simp: validate_zip_contents_def list_ex_iff list_all_iff dest: endswith_tl)

text \<open>C2. The claim: a \<open>.zip\<close> upload whose archive holds an entry that does not end in
  \<open>.xml\<close> is rejected by the contents check. The validator tests the suffix \<open>xml\<close>
  without the dot: the entry \<open>notesxml\<close> does not end in \<open>.xml\<close>, and the archive
  passes.\<close>

theorem validate_zip_contents_dotless_entry:
  "validate_zip_contents dotless_entry_world \<lparr>name = ''a.zip'', size_bytes = 0\<rparr> = Inr () \<and>
   ZipFile dotless_entry_world [''a.zip''] = Inr \<lparr>testzip = Inr None, namelist = [''notesxml'']\<rparr> \<and>
   \<not> endswith ''notesxml'' ''.xml''"
  by (simp add: validate_zip_contents_def dotless_entry_world_def silent_world_def endswith_def)

subsection \<open>Names in upper or mixed case\<close>

text \<open>What the case-sensitive tests of the later validators see of a name that ends in
  \<open>.zip\<close> or \<open>.xml\<close> only after lowering.\<close>

lemma mixed_case_facts:
  assumes "(endswith (lower n) ''.zip'' \<and> \<not> endswith n ''.zip'') \<or>
           (endswith (lower n) ''.xml'' \<and> \<not> endswith n ''.xml'')"
  shows "\<not> endswith n ''zip''" and "snd (splitext n) \<noteq> ''.zip''" and "snd (splitext n) \<noteq> ''.xml''"
    and "endswith (lower n) ''zip'' \<or> endswith (lower n) ''xml''"
proof -
  from assms show "endswith (lower n) ''zip'' \<or> endswith (lower n) ''xml''"
    by (auto dest: endswith_tl)
  have zx: "\<not> (endswith (lower n) ''.zip'' \<and> endswith (lower n) ''.xml'')"
    using endswith_same_length [of "lower n" "''.zip''" "''.xml''"] by auto
  have zx3: "\<not> (endswith (lower n) ''zip'' \<and> endswith (lower n) ''xml'')"
    using endswith_same_length [of "lower n" "''zip''" "''xml''"] by auto
  show "\<not> endswith n ''zip''"
  proof
    assume z: "endswith n ''zip''"
    from assms show False
    proof
      assume "endswith (lower n) ''.zip'' \<and> \<not> endswith n ''.zip''"
      with z endswith_lower_dot [of n "''zip''"] show False by simp
    next
      assume "endswith (lower n) ''.xml'' \<and> \<not> endswith n ''.xml''"
      then have "endswith (lower n) ''xml''" by (auto dest: endswith_tl)
      moreover from z have "endswith (lower n) ''zip''"
        using endswith_lower [of n "''zip''"] by (simp add: lower_suffixes)
      ultimately show False using zx3 by simp
    qed
  qed
  show "snd (splitext n) \<noteq> ''.zip''"
  proof
    assume e: "snd (splitext n) = ''.zip''"
    with splitext_snd [of n] have z: "endswith n ''.zip''" by simp
    then have "endswith (lower n) ''.zip''"
      using endswith_lower [of n "''.zip''"] by (simp add: lower_suffixes)
    with z assms zx show False by auto
  qed
  show "snd (splitext n) \<noteq> ''.xml''"
  proof
    assume e: "snd (splitext n) = ''.xml''"
    with splitext_snd [of n] have z: "endswith n ''.xml''" by simp
    then have "endswith (lower n) ''.xml''"
      using endswith_lower [of n "''.xml''"] by (simp add: lower_suffixes)
    with z assms zx show False by auto
  qed
qed

lemma mixed_case_stages_pass:
  assumes "(endswith (lower (name f)) ''.zip'' \<and> \<not> endswith (name f) ''.zip'') \<or>
           (endswith (lower (name f)) ''.xml'' \<and> \<not> endswith (name f) ''.xml'')"
  shows "validate_extension f = Inr ()"
    and "validate_mime_type cfg env f = Inr ()"
    and "validate_zip_integrity env f = Inr ()"
    and "validate_zip_contents env f = Inr ()"
    and "validate_xml_well_formedness env f = Inr ()"
    and "validate_against_schema cfg env f = Inr ()"
proof -
  note m = mixed_case_facts [OF assms]
  show "validate_extension f = Inr ()"
    using m(4) by (simp add: validate_extension_def)
  show "validate_mime_type cfg env f = Inr ()"
    using m(2,3) by (simp add: validate_mime_type_def sniffed_mime_type_last)
  show "validate_zip_integrity env f = Inr ()"
    using m(1) by (simp add: validate_zip_integrity_def)
  show "validate_zip_contents env f = Inr ()"
    using m(1) by (simp add: validate_zip_contents_def)
  show "validate_xml_well_formedness env f = Inr ()"
    using m(2,3) by (simp add: validate_xml_well_formedness_def)
  show "validate_against_schema cfg env f = Inr ()"
    using m(2,3) by (simp add: validate_against_schema_def)
qed

text \<open>C3. A name that ends in an upper- or mixed-case variant of \<open>.zip\<close> or \<open>.xml\<close>
  (its lowered form ends in the suffix, the name itself does not) passes the extension
  check, and the MIME-type, zip-integrity, zip-contents, well-formedness and schema
  validators return without an error whatever the world answers; when its size does not
  exceed \<open>MAX_UPLOAD_SIZE\<close> the size check passes too, so that no validator raises and
  the upload is accepted.\<close>

theorem mixed_case_extension_skips_checks:
  assumes "(endswith (lower (name f)) ''.zip'' \<and> \<not> endswith (name f) ''.zip'') \<or>
           (endswith (lower (name f)) ''.xml'' \<and> \<not> endswith (name f) ''.xml'')"
  shows "validate_extension f = Inr () \<and>
         validate_mime_type cfg env f = Inr () \<and>
         validate_zip_integrity env f = Inr () \<and>
         validate_zip_contents env f = Inr () \<and>
         validate_xml_well_formedness env f = Inr () \<and>
         validate_against_schema cfg env f = Inr () \<and>
         (size_bytes f \<le> MAX_UPLOAD_SIZE cfg \<longrightarrow> validate_size cfg f = Inr ())"
  using mixed_case_stages_pass [OF assms] by (simp add: validate_size_def)

theorem mixed_case_extension_skips_checks_witness:
  "endswith (lower ''DATA.ZIP'') ''.zip'' \<and> \<not> endswith ''DATA.ZIP'' ''.zip'' \<and>
   validate_extension \<lparr>name = ''DATA.ZIP'', size_bytes = 1024\<rparr> = Inr () \<and>
   validate_size example_settings \<lparr>name = ''DATA.ZIP'', size_bytes = 1024\<rparr> = Inr () \<and>
   validate_mime_type example_settings failing_world
     \<lparr>name = ''DATA.ZIP'', size_bytes = 1024\<rparr> = Inr () \<and>
   validate_zip_integrity failing_world \<lparr>name = ''DATA.ZIP'', size_bytes = 1024\<rparr> = Inr () \<and>
   validate_zip_contents failing_world \<lparr>name = ''DATA.ZIP'', size_bytes = 1024\<rparr> = Inr () \<and>
   validate_xml_well_formedness failing_world
     \<lparr>name = ''DATA.ZIP'', size_bytes = 1024\<rparr> = Inr () \<and>
   validate_against_schema example_settings failing_world
     \<lparr>name = ''DATA.ZIP'', size_bytes = 1024\<rparr> = Inr ()"
proof -
  have h: "endswith (lower ''DATA.ZIP'') ''.zip'' \<and> \<not> endswith ''DATA.ZIP'' ''.zip''"
    by (simp add: endswith_def lower_def lower_char_def char_of_eq_iff)
  have s: "size_bytes \<lparr>name = ''DATA.ZIP'', size_bytes = 1024\<rparr> \<le> MAX_UPLOAD_SIZE example_settings"
    by (simp add: example_settings_def)
  show ?thesis
    using h s mixed_case_extension_skips_checks
      [of "\<lparr>name = ''DATA.ZIP'', size_bytes = 1024\<rparr>" example_settings failing_world]
    by simp
qed

text \<open>With the runner of the stages, the verdict for such an upload is \<open>Accepted\<close>; the
  same world rejects the upload under the lower-case name.\<close>

lemma mixed_case_upload_accepted:
  assumes "(endswith (lower (name f)) ''.zip'' \<and> \<not> endswith (name f) ''.zip'') \<or>
           (endswith (lower (name f)) ''.xml'' \<and> \<not> endswith (name f) ''.xml'')"
      and "size_bytes f \<le> MAX_UPLOAD_SIZE cfg"
  shows "validate cfg env f = Accepted"
  using assms(2) mixed_case_stages_pass [OF assms(1)]
  by (simp add: validate_def stages_def validate_size_def)

lemma lower_case_upload_rejected:
  "validate example_settings failing_world \<lparr>name = ''data.zip'', size_bytes = 1024\<rparr> =
     Rejected (ValidationError
       ''File appears to be in .zip format, but it is not (MIME-type: image/png).'')"
  by (simp add: validate_def stages_def validate_extension_def validate_size_def
        validate_mime_type_def sniffed_mime_type_last failing_world_def example_settings_def
        endswith_def lower_def lower_char_def splitext_def split_def startswith_def strip_def
        isspace_def)

subsection \<open>Zip integrity\<close>


text \<open>C4, as stated, fails: the claim has the integrity check reject exactly when opening
  the archive raises an I/O error or the integrity test names a corrupted member. Here
  the archive opens, the integrity test names no member and raises \<^verbatim>\<open>IOError\<close> itself,
  and the upload is rejected: the handler covers both calls of the \<^verbatim>\<open>try\<close> block.\<close>

theorem validate_zip_integrity_testzip_io_error:
  "validate_zip_integrity testzip_io_error_world \<lparr>name = ''a.zip'', size_bytes = 0\<rparr> =
     Inl (ValidationError ''Archive is corrupted'') \<and>
   ZipFile testzip_io_error_world [''a.zip''] = Inr \<lparr>testzip = Inl IOError, namelist = []\<rparr>"
  by (simp add: validate_zip_integrity_def testzip_io_error_world_def silent_world_def endswith_def)

text \<open>C4, amended. For an upload whose name ends in \<open>.zip\<close>, and member names that are
  not the empty string: the integrity check rejects (with one of its two messages)
  exactly when opening the archive or running the integrity test raises an I/O error, or
  the integrity test names a corrupted member; it passes when either call reports a bad
  zip format, and exactly when neither the condition for rejecting holds nor an
  exception of another class is raised. An exception of another class from either call
  is not caught: the check then neither passes nor rejects. An upload whose name does not
  end in \<open>zip\<close> is not inspected.\<close>

theorem validate_zip_integrity_rejects_iff:
  "(endswith (name f) ''.zip'' \<and>
    (\<forall>a. ZipFile env [name f] = Inr a \<longrightarrow> testzip a \<noteq> Inr (Some [])) \<longrightarrow>
      ((validate_zip_integrity env f = Inl (ValidationError ''Archive is corrupted'') \<or>
        validate_zip_integrity env f = Inl (ValidationError ''Archive contains corrupted files''))
       \<longleftrightarrow>
       (ZipFile env [name f] = Inl IOError \<or>
        (\<exists>a. ZipFile env [name f] = Inr a \<and>
             (testzip a = Inl IOError \<or> (\<exists>member. testzip a = Inr (Some member)))))) \<and>
      (validate_zip_integrity env f = Inl OtherException
       \<longleftrightarrow>
       (ZipFile env [name f] = Inl OtherError \<or>
        (\<exists>a. ZipFile env [name f] = Inr a \<and> testzip a = Inl OtherError))) \<and>
      (validate_zip_integrity env f = Inr ()
       \<longleftrightarrow>
       (ZipFile env [name f] = Inl BadZipFile \<or>
        (\<exists>a. ZipFile env [name f] = Inr a \<and>
             (testzip a = Inl BadZipFile \<or> testzip a = Inr None))))) \<and>
   (endswith (name f) ''.zip'' \<and>
    (ZipFile env [name f] = Inl BadZipFile \<or>
     (\<exists>a. ZipFile env [name f] = Inr a \<and> testzip a = Inl BadZipFile)) \<longrightarrow>
      validate_zip_integrity env f = Inr ()) \<and>
   (\<not> endswith (name f) ''zip'' \<longrightarrow> validate_zip_integrity env f = Inr ())"
proof -
  have z: "endswith (name f) ''.zip'' \<Longrightarrow> endswith (name f) ''zip''"
    by (rule endswith_tl)
  show ?thesis
    by (auto simp: validate_zip_integrity_def truthy_def dest!: z
             split: sum.splits zip_error.splits option.splits)
qed

theorem validate_zip_integrity_rejects_iff_witness:
  "endswith ''a.zip'' ''.zip'' \<and>
   ZipFile corrupted_member_world [''a.zip''] =
     Inr \<lparr>testzip = Inr (Some ''bad.xml''), namelist = [''bad.xml'']\<rparr> \<and>
   validate_zip_integrity corrupted_member_world \<lparr>name = ''a.zip'', size_bytes = 0\<rparr> =
     Inl (ValidationError ''Archive contains corrupted files'') \<and>
   ZipFile silent_world [''a.zip''] = Inl BadZipFile \<and>
   validate_zip_integrity silent_world \<lparr>name = ''a.zip'', size_bytes = 0\<rparr> = Inr () \<and>
   ZipFile uncaught_error_world [''a.zip''] =
     Inr \<lparr>testzip = Inl OtherError, namelist = [''a.xml'']\<rparr> \<and>
   validate_zip_integrity uncaught_error_world \<lparr>name = ''a.zip'', size_bytes = 0\<rparr> =
     Inl OtherException"
proof -
  have e: "endswith ''a.zip'' ''.zip''" by (simp add: endswith_def)
  have c: "ZipFile corrupted_member_world [''a.zip''] =
     Inr \<lparr>testzip = Inr (Some ''bad.xml''), namelist = [''bad.xml'']\<rparr>"
    by (simp add: corrupted_member_world_def silent_world_def)
  have s: "ZipFile silent_world [''a.zip''] = Inl BadZipFile"
    by (simp add: silent_world_def)
  have u: "ZipFile uncaught_error_world [''a.zip''] =
     Inr \<lparr>testzip = Inl OtherError, namelist = [''a.xml'']\<rparr>"
    by (simp add: uncaught_error_world_def silent_world_def)
  have n: "validate_zip_integrity corrupted_member_world \<lparr>name = ''a.zip'', size_bytes = 0\<rparr> \<noteq>
     Inl (ValidationError ''Archive is corrupted'')"
    by (simp add: validate_zip_integrity_def c e endswith_tl [OF e] truthy_def)
  show ?thesis
    using e c s u n
      validate_zip_integrity_rejects_iff
        [of "\<lparr>name = ''a.zip'', size_bytes = 0\<rparr>" corrupted_member_world]
      validate_zip_integrity_rejects_iff
        [of "\<lparr>name = ''a.zip'', size_bytes = 0\<rparr>" silent_world]
      validate_zip_integrity_rejects_iff
        [of "\<lparr>name = ''a.zip'', size_bytes = 0\<rparr>" uncaught_error_world]
    by simp
qed

subsection \<open>Failures to open or extract after the integrity check\<close>



text \<open>An exception of another class raised when the contents check opens the archive is
  not caught.\<close>

lemma validate_zip_contents_uncaught:
  "endswith (name f) ''zip'' \<Longrightarrow> ZipFile env [name f] = Inl OtherError \<Longrightarrow>
   validate_zip_contents env f = Inl OtherException"
  by (simp add: validate_zip_contents_def)

subsection \<open>The pipeline stops at the first failing stage\<close>

text \<open>The runner rejects with an error exactly when some stage raises it and every stage
  before that one passed; it accepts exactly when every stage passed.\<close>

lemma run_stages_Rejected_iff:
  "run_stages xs = Rejected e \<longleftrightarrow>
     (\<exists>i<length xs. xs ! i = Inl e \<and> (\<forall>j<i. xs ! j = Inr ()))"
proof (induction xs rule: run_stages.induct)
  case 1
  then show ?case by simp
next
  case (2 e' rest)
  show ?case
  proof
    assume "run_stages (Inl e' # rest) = Rejected e"
    then have "e' = e" by simp
    then have "(Inl e' # rest) ! 0 = Inl e \<and> (\<forall>j<0. (Inl e' # rest) ! j = Inr ())" by simp
    then show "\<exists>i<length (Inl e' # rest). (Inl e' # rest) ! i = Inl e \<and>
                 (\<forall>j<i. (Inl e' # rest) ! j = Inr ())"
      by (intro exI [of _ 0]) simp
  next
    assume "\<exists>i<length (Inl e' # rest). (Inl e' # rest) ! i = Inl e \<and>
                 (\<forall>j<i. (Inl e' # rest) ! j = Inr ())"
    then obtain i where i: "(Inl e' # rest) ! i = Inl e" "\<forall>j<i. (Inl e' # rest) ! j = Inr ()"
      by blast
    have "i = 0"
    proof (rule ccontr)
      assume "i \<noteq> 0"
      then have "0 < i" by simp
      with i(2) have "(Inl e' # rest) ! 0 = Inr ()" by blast
      then show False by simp
    qed
    with i(1) show "run_stages (Inl e' # rest) = Rejected e" by simp
  qed
next
  case (3 u rest)
  show ?case
  proof
    assume "run_stages (Inr u # rest) = Rejected e"
    with 3 obtain i where i: "i < length rest" "rest ! i = Inl e" "\<forall>j<i. rest ! j = Inr ()"
      by auto
    have "\<forall>j<Suc i. (Inr u # rest) ! j = Inr ()"
      using i(3) by (auto simp: nth_Cons split: nat.splits)
    with i(1,2) show "\<exists>i<length (Inr u # rest). (Inr u # rest) ! i = Inl e \<and>
                 (\<forall>j<i. (Inr u # rest) ! j = Inr ())"
      by (intro exI [of _ "Suc i"]) simp
  next
    assume "\<exists>i<length (Inr u # rest). (Inr u # rest) ! i = Inl e \<and>
                 (\<forall>j<i. (Inr u # rest) ! j = Inr ())"
    then obtain i where i: "i < length (Inr u # rest)" "(Inr u # rest) ! i = Inl e"
        "\<forall>j<i. (Inr u # rest) ! j = Inr ()"
      by blast
    from i(2) obtain k where k: "i = Suc k" by (cases i) auto
    with i have "k < length rest" "rest ! k = Inl e" by auto
    moreover have "\<forall>j<k. rest ! j = Inr ()"
    proof (intro allI impI)
      fix j assume "j < k"
      then have "Suc j < i" using k by simp
      with i(3) have "(Inr u # rest) ! Suc j = Inr ()" by blast
      then show "rest ! j = Inr ()" by simp
    qed
    ultimately have "run_stages rest = Rejected e" using 3 by blast
    then show "run_stages (Inr u # rest) = Rejected e" by simp
  qed
qed

lemma run_stages_Accepted_iff:
  "run_stages xs = Accepted \<longleftrightarrow> (\<forall>i<length xs. xs ! i = Inr ())"
proof (induction xs rule: run_stages.induct)
  case 1
  then show ?case by simp
next
  case (2 e' rest)
  have "(Inl e' # rest) ! 0 \<noteq> Inr ()" by simp
  then show ?case by auto
next
  case (3 u rest)
  then show ?case by (auto simp: nth_Cons split: nat.splits)
qed

text \<open>C6. A validation run reports at most one error: the seven stages are, in this order,
  extension, size, MIME type, zip integrity, zip contents, well-formedness and schema
  conformity; the verdict is \<open>Rejected e\<close> exactly when some stage raises \<open>e\<close> and all
  stages before it passed (so no later stage contributes), and \<open>Accepted\<close> exactly when
  all seven passed.\<close>

theorem validate_first_failure:
  "length (stages cfg env f) = 7 \<and>
   stages cfg env f ! 0 = validate_extension f \<and>
   stages cfg env f ! 1 = validate_size cfg f \<and>
   stages cfg env f ! 2 = validate_mime_type cfg env f \<and>
   stages cfg env f ! 3 = validate_zip_integrity env f \<and>
   stages cfg env f ! 4 = validate_zip_contents env f \<and>
   stages cfg env f ! 5 = validate_xml_well_formedness env f \<and>
   stages cfg env f ! 6 = validate_against_schema cfg env f \<and>
   (validate cfg env f = Rejected e \<longleftrightarrow>
      (\<exists>i<7. stages cfg env f ! i = Inl e \<and> (\<forall>j<i. stages cfg env f ! j = Inr ()))) \<and>
   (validate cfg env f = Accepted \<longleftrightarrow> (\<forall>i<7. stages cfg env f ! i = Inr ()))"
proof -
  have len: "length (stages cfg env f) = 7" by (simp add: stages_def)
  have r: "validate cfg env f = Rejected e \<longleftrightarrow>
      (\<exists>i<7. stages cfg env f ! i = Inl e \<and> (\<forall>j<i. stages cfg env f ! j = Inr ()))"
    unfolding validate_def run_stages_Rejected_iff len ..
  have a: "validate cfg env f = Accepted \<longleftrightarrow> (\<forall>i<7. stages cfg env f ! i = Inr ())"
    unfolding validate_def run_stages_Accepted_iff len ..
  have n: "stages cfg env f ! 0 = validate_extension f \<and>
   stages cfg env f ! 1 = validate_size cfg f \<and>
   stages cfg env f ! 2 = validate_mime_type cfg env f \<and>
   stages cfg env f ! 3 = validate_zip_integrity env f \<and>
   stages cfg env f ! 4 = validate_zip_contents env f \<and>
   stages cfg env f ! 5 = validate_xml_well_formedness env f \<and>
   stages cfg env f ! 6 = validate_against_schema cfg env f"
    by (simp add: stages_def)
  from len n r a show ?thesis by blast
qed

text \<open>In \<open>failing_world\<close> the oversized \<open>.xml\<close> upload would also fail the MIME-type
  check, which comes after the size check.\<close>

lemma validate_mime_type_example:
  "validate_mime_type example_settings failing_world oversized_xml =
     Inl (ValidationError ''File appears to be in .xml format, but it is not (MIME-type: image/png).'')"
  by (simp add: validate_mime_type_def sniffed_mime_type_last failing_world_def oversized_xml_def
        example_settings_def splitext_def split_def startswith_def strip_def isspace_def)

theorem validate_first_failure_witness:
  "validate_extension oversized_xml = Inr () \<and>
   validate_size example_settings oversized_xml =
     Inl (ValidationError ''Upload too large. The current limit is 5MB.'') \<and>
   validate_mime_type example_settings failing_world oversized_xml =
     Inl (ValidationError ''File appears to be in .xml format, but it is not (MIME-type: image/png).'') \<and>
   validate example_settings failing_world oversized_xml =
     Rejected (ValidationError ''Upload too large. The current limit is 5MB.'')"
proof -
  let ?e = "ValidationError ''Upload too large. The current limit is 5MB.''"
  have x: "validate_extension oversized_xml = Inr ()"
    by (simp add: validate_extension_def oversized_xml_def endswith_def lower_def lower_char_def)
  have s: "validate_size example_settings oversized_xml = Inl ?e"
    by (simp add: validate_size_def oversized_xml_def example_settings_def str_int_def
          str_nat.simps digit_char_def char_of_eq_iff)
  note t = validate_first_failure [of example_settings failing_world oversized_xml ?e]
  have "stages example_settings failing_world oversized_xml ! 1 = Inl ?e \<and>
        (\<forall>j<1. stages example_settings failing_world oversized_xml ! j = Inr ())"
    using t x s by simp
  then have "\<exists>i<7. stages example_settings failing_world oversized_xml ! i = Inl ?e \<and>
        (\<forall>j<i. stages example_settings failing_world oversized_xml ! j = Inr ())"
    by (intro exI [of _ 1]) simp
  with t have "validate example_settings failing_world oversized_xml = Rejected ?e"
    by blast
  with x s validate_mime_type_example show ?thesis by simp
qed

subsection \<open>MIME type\<close>

text \<open>C7. With the detected MIME type (the last piece of what the sniffer prints) and the
  extension of the name: an upload with extension \<open>.zip\<close> whose MIME type is not in
  \<open>ZIP_MIME_TYPES\<close>, or with extension \<open>.xml\<close> whose MIME type is not in
  \<open>XML_MIME_TYPES\<close>, is rejected with the MIME-type message, which carries the extension
  and the detected MIME type; when the MIME type is in the list for the extension, the
  check passes.\<close>

theorem validate_mime_type_allow_sets:
  assumes "mime_type = last (split '': '' (strip (file_mime_type env [name f])))"
      and "file_extension = snd (splitext (name f))"
  shows "(file_extension = ''.zip'' \<and> mime_type \<notin> set (ZIP_MIME_TYPES cfg) \<longrightarrow>
            validate_mime_type cfg env f =
              Inl (ValidationError (''File appears to be in '' @ file_extension @
                     '' format, but it is not (MIME-type: '' @ mime_type @ '').''))) \<and>
         (file_extension = ''.xml'' \<and> mime_type \<notin> set (XML_MIME_TYPES cfg) \<longrightarrow>
            validate_mime_type cfg env f =
              Inl (ValidationError (''File appears to be in '' @ file_extension @
                     '' format, but it is not (MIME-type: '' @ mime_type @ '').''))) \<and>
         (file_extension = ''.zip'' \<and> mime_type \<in> set (ZIP_MIME_TYPES cfg) \<longrightarrow>
            validate_mime_type cfg env f = Inr ()) \<and>
         (file_extension = ''.xml'' \<and> mime_type \<in> set (XML_MIME_TYPES cfg) \<longrightarrow>
            validate_mime_type cfg env f = Inr ())"
  using assms by (simp add: validate_mime_type_def sniffed_mime_type_last)

theorem validate_mime_type_allow_sets_witness:
  "snd (splitext ''a.zip'') = ''.zip'' \<and>
   last (split '': '' (strip (file_mime_type octet_stream_world [''a.zip'']))) =
     ''application/octet-stream'' \<and>
   ''application/octet-stream'' \<notin> set (ZIP_MIME_TYPES example_settings) \<and>
   validate_mime_type example_settings octet_stream_world \<lparr>name = ''a.zip'', size_bytes = 1024\<rparr> =
     Inl (ValidationError
       ''File appears to be in .zip format, but it is not (MIME-type: application/octet-stream).'') \<and>
   last (split '': '' (strip (file_mime_type zip_sniffed_world [''a.zip'']))) = ''application/zip'' \<and>
   ''application/zip'' \<in> set (ZIP_MIME_TYPES example_settings) \<and>
   validate_mime_type example_settings zip_sniffed_world \<lparr>name = ''a.zip'', size_bytes = 1024\<rparr> = Inr ()"
proof -
  have e: "snd (splitext ''a.zip'') = ''.zip''" by (simp add: splitext_def)
  have m1: "last (split '': '' (strip (file_mime_type octet_stream_world [''a.zip'']))) =
     ''application/octet-stream''"
    by (simp add: octet_stream_world_def silent_world_def split_def startswith_def strip_def
          isspace_def)
  have m2: "last (split '': '' (strip (file_mime_type zip_sniffed_world [''a.zip'']))) =
     ''application/zip''"
    by (simp add: zip_sniffed_world_def silent_world_def split_def startswith_def strip_def
          isspace_def)
  have a1: "''application/octet-stream'' \<notin> set (ZIP_MIME_TYPES example_settings)"
    by (simp add: example_settings_def)
  have a2: "''application/zip'' \<in> set (ZIP_MIME_TYPES example_settings)"
    by (simp add: example_settings_def)
  show ?thesis
    using e m1 m2 a1 a2
      validate_mime_type_allow_sets
        [of "''application/octet-stream''" octet_stream_world
            "\<lparr>name = ''a.zip'', size_bytes = 1024\<rparr>" "''.zip''" example_settings]
      validate_mime_type_allow_sets
        [of "''application/zip''" zip_sniffed_world
            "\<lparr>name = ''a.zip'', size_bytes = 1024\<rparr>" "''.zip''" example_settings]
    by simp
qed

subsection \<open>Members of an extracted archive\<close>

text \<open>For an upload with extension \<open>.zip\<close> whose archive extracts to a folder, and paths
  without double quote and backslash: the well-formedness check and the schema check
  each reject, with one fixed message that does not name the file, exactly when the tool
  finds a fault in some file listed in the folder whose name ends in \<open>.xml\<close> and is not
  \<open>om.xml\<close>; \<open>om.xml\<close> is never examined.\<close>

lemma archive_members_plain_paths:
  assumes "snd (splitext (name f)) = ''.zip''"
      and "extract_archive env [name f] = Some folder" and "folder \<noteq> []"
      and "dquote \<notin> set (SCHEMA_PATH cfg)" and "backslash \<notin> set (SCHEMA_PATH cfg)"
      and "\<forall>file_name \<in> set (listdir env [folder]).
             dquote \<notin> set (get_tmp_path env [folder, file_name]) \<and>
             backslash \<notin> set (get_tmp_path env [folder, file_name])"
  shows "validate_xml_well_formedness env f =
           (if \<exists>file_name \<in> set (listdir env [folder]).
                 endswith file_name ''.xml'' \<and> file_name \<noteq> ''om.xml'' \<and>
                 Popen_stdout env [''xmlwf'', get_tmp_path env [folder, file_name]] \<noteq> []
            then Inl (ValidationError ''Archive contains XML files that are not well-formed'')
            else Inr ())"
    and "validate_against_schema cfg env f =
           (if \<exists>file_name \<in> set (listdir env [folder]).
                 endswith file_name ''.xml'' \<and> file_name \<noteq> ''om.xml'' \<and>
                 Popen_wait env [''xmllint'', ''--noout'', ''--schema'', SCHEMA_PATH cfg,
                                 get_tmp_path env [folder, file_name]] \<noteq> 0
            then Inl (ValidationError
                   ''Archive contains XML files that do not validate against the TrendMiner XML schema'')
            else Inr ())"
proof -
  have w: "validate_xml_well_formedness env f = files_well_formed env folder (listdir env [folder])"
    using assms(1-3) by (simp add: validate_xml_well_formedness_def truthy_def)
  have s: "validate_against_schema cfg env f =
             files_against_schema cfg env folder (listdir env [folder])"
    using assms(1-3) by (simp add: validate_against_schema_def truthy_def)
  show "validate_xml_well_formedness env f =
           (if \<exists>file_name \<in> set (listdir env [folder]).
                 endswith file_name ''.xml'' \<and> file_name \<noteq> ''om.xml'' \<and>
                 Popen_stdout env [''xmlwf'', get_tmp_path env [folder, file_name]] \<noteq> []
            then Inl (ValidationError ''Archive contains XML files that are not well-formed'')
            else Inr ())"
    unfolding w files_well_formed_plain [OF assms(6)] list_ex_iff by simp
  show "validate_against_schema cfg env f =
           (if \<exists>file_name \<in> set (listdir env [folder]).
                 endswith file_name ''.xml'' \<and> file_name \<noteq> ''om.xml'' \<and>
                 Popen_wait env [''xmllint'', ''--noout'', ''--schema'', SCHEMA_PATH cfg,
                                 get_tmp_path env [folder, file_name]] \<noteq> 0
            then Inl (ValidationError
                   ''Archive contains XML files that do not validate against the TrendMiner XML schema'')
            else Inr ())"
    unfolding s files_against_schema_plain [OF assms(4-6)] list_ex_iff by simp
qed

text \<open>C8. The claim: for every \<open>.zip\<close> upload the well-formedness and the schema check
  examine every extracted entry whose name ends in \<open>.xml\<close>, except \<open>om.xml\<close>, and a
  failing entry yields the archive-level rejection. The archive here extracts to a folder
  that lists one file whose name is \<open>a\<close>, a double quote, \<open>.xml\<close>; the name ends in
  \<open>.xml\<close> and the tools would report
  a fault in it. Both checks raise \<^verbatim>\<open>ValueError\<close> when they split the command line, before
  any tool runs: the entry is not examined and the upload is not rejected.\<close>

theorem archive_member_quote_raises:
  "snd (splitext ''a.zip'') = ''.zip'' \<and>
   extract_archive quoted_member_world [''a.zip''] = Some ''folder'' \<and>
   listdir quoted_member_world [''folder''] = [quoted_member_name] \<and>
   endswith quoted_member_name ''.xml'' \<and> quoted_member_name \<noteq> ''om.xml'' \<and>
   validate_xml_well_formedness quoted_member_world \<lparr>name = ''a.zip'', size_bytes = 1024\<rparr> =
     Inl ValueError \<and>
   validate_against_schema example_settings quoted_member_world
     \<lparr>name = ''a.zip'', size_bytes = 1024\<rparr> = Inl ValueError"
proof -
  have e: "snd (splitext ''a.zip'') = ''.zip''" by (simp add: splitext_def)
  have x: "extract_archive quoted_member_world [''a.zip''] = Some ''folder''"
    "listdir quoted_member_world [''folder''] = [quoted_member_name]"
    "get_tmp_path quoted_member_world = example_tmp_path"
    by (simp_all add: quoted_member_world_def)
  have n: "endswith quoted_member_name ''.xml''" "quoted_member_name \<noteq> ''om.xml''"
    by (simp_all add: quoted_member_name_def endswith_def)
  have w: "validate_xml_well_formedness quoted_member_world
             \<lparr>name = ''a.zip'', size_bytes = 1024\<rparr> = Inl ValueError"
    by (simp add: validate_xml_well_formedness_def e x n truthy_def shlex_split_quoted_member)
  have s: "validate_against_schema example_settings quoted_member_world
             \<lparr>name = ''a.zip'', size_bytes = 1024\<rparr> = Inl ValueError"
    using shlex_split_quoted_member(2)
    by (simp add: validate_against_schema_def e x n truthy_def example_settings_def)
  from e x(1,2) n w s show ?thesis by simp
qed

text \<open>The folder that holds \<open>a.xml\<close> in order and a faulty \<open>om.xml\<close> passes both checks;
  the folder of \<open>failing_world\<close>, where \<open>a.xml\<close> is faulty too, is rejected by both.\<close>

lemma om_xml_exempt:
  "validate_xml_well_formedness faulty_om_world \<lparr>name = ''a.zip'', size_bytes = 1024\<rparr> = Inr ()"
  "validate_against_schema example_settings faulty_om_world
     \<lparr>name = ''a.zip'', size_bytes = 1024\<rparr> = Inr ()"
  "validate_xml_well_formedness failing_world \<lparr>name = ''a.zip'', size_bytes = 1024\<rparr> =
     Inl (ValidationError ''Archive contains XML files that are not well-formed'')"
  "validate_against_schema example_settings failing_world \<lparr>name = ''a.zip'', size_bytes = 1024\<rparr> =
     Inl (ValidationError
       ''Archive contains XML files that do not validate against the TrendMiner XML schema'')"
  by (simp_all add: validate_xml_well_formedness_def validate_against_schema_def splitext_def
        faulty_om_world_def failing_world_def example_settings_def truthy_def endswith_def
        example_tmp_path_def shlex_split_def xmlwf_command_def xmllint_command_def emit_def
        shlex_whitespace_def shlex_quote_def dquote_def squote_def backslash_def)

text \<open>A member in a subdirectory: the archive lists \<open>sub/bad.xml\<close>, which ends in \<open>xml\<close>
  and passes the contents check; the extracted folder lists the directory \<open>sub\<close>, whose
  name does not end in \<open>.xml\<close>, so that neither check runs a tool, and the upload is
  accepted although the tools would report a fault in every file.\<close>

lemma nested_member_unchecked:
  "validate example_settings nested_member_world \<lparr>name = ''a.zip'', size_bytes = 1024\<rparr> =
     Accepted"
  by (simp add: validate_def stages_def validate_extension_def validate_size_def
        validate_mime_type_def sniffed_mime_type_last validate_zip_integrity_def
        validate_zip_contents_def validate_xml_well_formedness_def validate_against_schema_def
        nested_member_world_def example_settings_def truthy_def endswith_def lower_def
        lower_char_def splitext_def split_def startswith_def strip_def isspace_def)

subsection \<open>Anything the MIME sniffer prints\<close>

lemma set_strip: "set (strip s) \<subseteq> set s"
proof -
  have "set (strip s) \<subseteq> set (dropWhile isspace s)"
    unfolding strip_def using set_dropWhileD by fastforce
  also have "\<dots> \<subseteq> set s" using set_dropWhileD by fastforce
  finally show ?thesis .
qed

text \<open>C10. Whatever the sniffer prints: taking the last piece of the stripped text split
  at \<open>: \<close> never raises \<^verbatim>\<open>IndexError\<close>, and the MIME-type check either passes or
  raises a \<open>ValidationError\<close>. Empty (or all-whitespace) text gives the empty MIME
  type; text without a colon gives the whole stripped text. An upload with extension
  \<open>.zip\<close> or \<open>.xml\<close> for which the sniffer prints nothing is rejected with the
  MIME-type message, provided the empty string is not in the list of allowed types.\<close>

theorem sniffer_output_never_crashes:
  "sniffed_mime_type out = Inr (last (split '': '' (strip out))) \<and>
   (validate_mime_type cfg env f = Inr () \<or>
    (\<exists>message. validate_mime_type cfg env f = Inl (ValidationError message))) \<and>
   (strip out = [] \<longrightarrow> sniffed_mime_type out = Inr []) \<and>
   (CHR '':'' \<notin> set out \<longrightarrow> sniffed_mime_type out = Inr (strip out)) \<and>
   (snd (splitext (name f)) = ''.zip'' \<and> strip (file_mime_type env [name f]) = [] \<and>
    [] \<notin> set (ZIP_MIME_TYPES cfg) \<longrightarrow>
      validate_mime_type cfg env f =
        Inl (ValidationError ''File appears to be in .zip format, but it is not (MIME-type: ).'')) \<and>
   (snd (splitext (name f)) = ''.xml'' \<and> strip (file_mime_type env [name f]) = [] \<and>
    [] \<notin> set (XML_MIME_TYPES cfg) \<longrightarrow>
      validate_mime_type cfg env f =
        Inl (ValidationError ''File appears to be in .xml format, but it is not (MIME-type: ).''))"
proof -
  have 1: "sniffed_mime_type out = Inr (last (split '': '' (strip out)))"
    by (rule sniffed_mime_type_last)
  have 2: "validate_mime_type cfg env f = Inr () \<or>
    (\<exists>message. validate_mime_type cfg env f = Inl (ValidationError message))"
    by (simp add: validate_mime_type_def sniffed_mime_type_last Let_def)
  have 3: "strip out = [] \<Longrightarrow> sniffed_mime_type out = Inr []"
    by (simp add: sniffed_mime_type_last split_def)
  have 4: "CHR '':'' \<notin> set out \<Longrightarrow> sniffed_mime_type out = Inr (strip out)"
  proof -
    assume "CHR '':'' \<notin> set out"
    with set_strip [of out] have "CHR '':'' \<notin> set (strip out)" by blast
    then show ?thesis
      by (simp add: sniffed_mime_type_last split_def split_from_no_sep)
  qed
  have 5: "snd (splitext (name f)) = ''.zip'' \<and> strip (file_mime_type env [name f]) = [] \<and>
    [] \<notin> set (ZIP_MIME_TYPES cfg) \<Longrightarrow>
      validate_mime_type cfg env f =
        Inl (ValidationError ''File appears to be in .zip format, but it is not (MIME-type: ).'')"
    by (simp add: validate_mime_type_def sniffed_mime_type_last split_def)
  have 6: "snd (splitext (name f)) = ''.xml'' \<and> strip (file_mime_type env [name f]) = [] \<and>
    [] \<notin> set (XML_MIME_TYPES cfg) \<Longrightarrow>
      validate_mime_type cfg env f =
        Inl (ValidationError ''File appears to be in .xml format, but it is not (MIME-type: ).'')"
    by (simp add: validate_mime_type_def sniffed_mime_type_last split_def)
  from 1 2 3 4 5 6 show ?thesis by blast
qed

theorem sniffer_output_never_crashes_witness:
  "strip (file_mime_type silent_world [''a.zip'']) = [] \<and>
   snd (splitext ''a.zip'') = ''.zip'' \<and>
   [] \<notin> set (ZIP_MIME_TYPES example_settings) \<and>
   validate_mime_type example_settings silent_world \<lparr>name = ''a.zip'', size_bytes = 1024\<rparr> =
     Inl (ValidationError ''File appears to be in .zip format, but it is not (MIME-type: ).'') \<and>
   CHR '':'' \<notin> set '' no such file  '' \<and>
   sniffed_mime_type '' no such file  '' = Inr ''no such file''"
proof -
  have s: "strip (file_mime_type silent_world [''a.zip'']) = []"
    by (simp add: silent_world_def strip_def)
  have e: "snd (splitext ''a.zip'') = ''.zip''" by (simp add: splitext_def)
  have a: "[] \<notin> set (ZIP_MIME_TYPES example_settings)" by (simp add: example_settings_def)
  have c: "CHR '':'' \<notin> set '' no such file  ''" by simp
  have t: "strip '' no such file  '' = ''no such file''" by (simp add: strip_def isspace_def)
  show ?thesis
    using s e a c t
      sniffer_output_never_crashes
        [of "'' no such file  ''" example_settings silent_world
            "\<lparr>name = ''a.zip'', size_bytes = 1024\<rparr>"]
    by (simp add: split_def startswith_def)
qed

end
